theory Spec2Isabelle
  imports Main "HOL-Library.Sublist" "HOL-Library.AList"
begin

section \<open>The orphaned MCP process reconciler (src/server/mcpCleanup.ts)\<close>

text \<open>
  The module talks to the operating system through three primitives only:
  \<^verbatim>\<open>execAsync\<close> (run a shell command, obtain its standard output or a rejection),
  \<^verbatim>\<open>process.kill\<close> (deliver a signal, or throw an error carrying a code) and a timer.
  The embedding takes these as a record of functions over an arbitrary world \<open>'w\<close>, so
  every theorem below holds for every behaviour of the operating system. Each call of
  a primitive is appended to a trace of events, which is what lets a theorem say that a
  signal was, or was not, sent. Console output is not modelled.

  A JavaScript string is modelled as the list of its code units, restricted to code
  units below 256; the output of the enumeration tools is ASCII. A process identifier
  and a port are JavaScript numbers holding integers and are modelled as \<open>int\<close>
  (the rounding of \<^verbatim>\<open>parseInt\<close> beyond 2^53 is outside the model).
\<close>

subsection \<open>Errors, signals, events and the operating system\<close>

datatype js_error = JsError (code: "string option")

datatype signal = SIGTERM | SIGKILL | SIG0

datatype event = Exec string | Kill int signal | Wait nat

record 'w os =
  platform :: string
  os_exec :: "string \<Rightarrow> 'w \<Rightarrow> (js_error + string) \<times> 'w"
  os_kill :: "int \<Rightarrow> signal \<Rightarrow> 'w \<Rightarrow> (js_error + unit) \<times> 'w"
  os_wait :: "nat \<Rightarrow> 'w \<Rightarrow> 'w"

type_synonym 'w run = "'w \<times> event list"

definition execAsync :: "'w os \<Rightarrow> string \<Rightarrow> 'w run \<Rightarrow> (js_error + string) \<times> 'w run" where
  "execAsync sys cmd s =
     (case os_exec sys cmd (fst s) of (r, w) \<Rightarrow> (r, (w, snd s @ [Exec cmd])))"

definition process_kill :: "'w os \<Rightarrow> int \<Rightarrow> signal \<Rightarrow> 'w run \<Rightarrow> (js_error + unit) \<times> 'w run" where
  "process_kill sys pid sg s =
     (case os_kill sys pid sg (fst s) of (r, w) \<Rightarrow> (r, (w, snd s @ [Kill pid sg])))"

definition setTimeout :: "'w os \<Rightarrow> nat \<Rightarrow> 'w run \<Rightarrow> 'w run" where
  "setTimeout sys ms s = (os_wait sys ms (fst s), snd s @ [Wait ms])"

subsection \<open>The string operations the module uses\<close>

definition nl :: char where
  "nl = CHR 0x0A"

definition dquote :: char where
  "dquote = CHR 0x22"

definition squote :: char where
  "squote = CHR 0x27"

text \<open>White space as \<^verbatim>\<open>trim\<close>, \<^verbatim>\<open>\s\<close> and \<^verbatim>\<open>parseInt\<close> see it, below code unit 256.\<close>

definition js_ws :: "char \<Rightarrow> bool" where
  "js_ws c = (c \<in> set [CHR 0x09, CHR 0x0A, CHR 0x0B, CHR 0x0C, CHR 0x0D, CHR 0x20, CHR 0xA0])"

definition trim :: "string \<Rightarrow> string" where
  "trim s = rev (dropWhile js_ws (rev (dropWhile js_ws s)))"

text \<open>\<^verbatim>\<open>s.split(c)\<close> for a one-character separator: the empty string gives one empty piece.\<close>

fun split_on :: "char \<Rightarrow> string \<Rightarrow> string list" where
  "split_on c [] = [[]]"
| "split_on c (x # xs) =
     (if x = c then [] # split_on c xs
      else (case split_on c xs of [] \<Rightarrow> [[x]] | y # ys \<Rightarrow> (x # y) # ys))"

text \<open>\<^verbatim>\<open>s.split(/\s+/)\<close>: pieces between maximal runs of white space; \<open>gap\<close> says
  that the scan is inside such a run, \<open>cur\<close> is the current piece, reversed.\<close>

fun split_ws_from :: "bool \<Rightarrow> string \<Rightarrow> string \<Rightarrow> string list" where
  "split_ws_from gap cur [] = [rev cur]"
| "split_ws_from gap cur (c # cs) =
     (if js_ws c
      then (if gap then split_ws_from True cur cs else rev cur # split_ws_from True [] cs)
      else split_ws_from False (c # cur) cs)"

definition split_ws :: "string \<Rightarrow> string list" where
  "split_ws s = split_ws_from False [] s"

text \<open>\<^verbatim>\<open>s.includes(t)\<close>: \<open>t\<close> occurs in \<open>s\<close> as a contiguous piece.\<close>

fun includes_str :: "string \<Rightarrow> string \<Rightarrow> bool" where
  "includes_str [] t = (t = [])"
| "includes_str (c # cs) t = (prefix t (c # cs) \<or> includes_str cs t)"

definition is_digit :: "char \<Rightarrow> bool" where
  "is_digit c = (c \<in> set ''0123456789'')"

text \<open>The value of a decimal digit is its code unit less that of the digit 0.\<close>

definition digit_val :: "char \<Rightarrow> nat" where
  "digit_val c = of_char c - 48"

text \<open>\<^verbatim>\<open>parseInt(s, 10)\<close>: leading white space, an optional sign, then the longest run of
  decimal digits; \<open>None\<close> is NaN.\<close>

definition parseInt :: "string \<Rightarrow> int option" where
  "parseInt s =
     (let s1 = dropWhile js_ws s;
          neg = (case s1 of [] \<Rightarrow> False | c # _ \<Rightarrow> c = CHR ''-'');
          s2 = (case s1 of [] \<Rightarrow> [] | c # r \<Rightarrow> if c = CHR ''-'' \<or> c = CHR ''+'' then r else s1);
          ds = takeWhile is_digit s2;
          n = int (foldl (\<lambda>a c. 10 * a + digit_val c) 0 ds)
      in if ds = [] then None else Some (if neg then - n else n))"

text \<open>The decimal text of an integer, as a template literal prints a port.\<close>

fun show_nat :: "nat \<Rightarrow> string" where
  "show_nat n =
     (if n < 10 then [''0123456789'' ! n]
      else show_nat (n div 10) @ [''0123456789'' ! (n mod 10)])"

definition show_int :: "int \<Rightarrow> string" where
  "show_int i = (if i < 0 then CHR ''-'' # show_nat (nat (- i)) else show_nat (nat i))"

subsection \<open>Module state and data\<close>

text \<open>The two module-level arrays \<^verbatim>\<open>MCP_PROCESS_PATTERNS\<close> and \<^verbatim>\<open>MCP_PORTS\<close>.\<close>

record registry =
  MCP_PROCESS_PATTERNS :: "string list"
  MCP_PORTS :: "int list"

definition initial_registry :: registry where
  "initial_registry =
     \<lparr>MCP_PROCESS_PATTERNS = [''robloxstudio-mcp'', ''mcp-remote'', ''mcp-server''],
      MCP_PORTS = [3002]\<rparr>"

record ProcessInfo =
  pid :: int
  name :: string
  port :: "int option"

datatype reason = Killed | Already_dead | Permission_denied | Error

record KillResult =
  success :: bool
  reason :: "reason option"

subsection \<open>killProcess\<close>

text \<open>
  The outer \<^verbatim>\<open>try\<close> sees only an error of the first signal: every later call sits in an
  inner \<^verbatim>\<open>try\<close> whose \<^verbatim>\<open>catch\<close> returns. An error of the forced signal itself is
  caught by the middle \<^verbatim>\<open>catch\<close>, like an error of the first probe.
\<close>

definition killProcess :: "'w os \<Rightarrow> int \<Rightarrow> 'w run \<Rightarrow> (js_error + KillResult) \<times> 'w run" where
  "killProcess sys p s0 =
     (case process_kill sys p SIGTERM s0 of
        (Inl err, s1) \<Rightarrow>
          (if code err = Some ''ESRCH''
             then (Inr \<lparr>success = True, reason = Some Already_dead\<rparr>, s1)
           else if code err = Some ''EPERM''
             then (Inr \<lparr>success = False, reason = Some Permission_denied\<rparr>, s1)
           else (Inr \<lparr>success = False, reason = Some Error\<rparr>, s1))
      | (Inr _, s1) \<Rightarrow>
          (case process_kill sys p SIG0 (setTimeout sys 500 s1) of
             (Inl _, s2) \<Rightarrow> (Inr \<lparr>success = True, reason = Some Killed\<rparr>, s2)
           | (Inr _, s2) \<Rightarrow>
               (case process_kill sys p SIGKILL s2 of
                  (Inl _, s3) \<Rightarrow> (Inr \<lparr>success = True, reason = Some Killed\<rparr>, s3)
                | (Inr _, s3) \<Rightarrow>
                    (case process_kill sys p SIG0 (setTimeout sys 200 s3) of
                       (Inl _, s4) \<Rightarrow> (Inr \<lparr>success = True, reason = Some Killed\<rparr>, s4)
                     | (Inr _, s4) \<Rightarrow> (Inr \<lparr>success = False, reason = Some Error\<rparr>, s4)))))"

subsection \<open>Discovery: findMcpProcesses and findProcessesOnMcpPorts\<close>

definition wmic_command :: "string \<Rightarrow> string" where
  "wmic_command pattern =
     ''wmic process where '' @ [dquote] @ ''commandline like '' @ [squote] @ ''%'' @ pattern
       @ ''%'' @ [squote, dquote] @ '' get processid,name /format:csv 2>nul''"

definition pgrep_command :: "string \<Rightarrow> string" where
  "pgrep_command pattern =
     ''pgrep -f '' @ [dquote] @ pattern @ [dquote] @ '' 2>/dev/null || true''"

definition netstat_command :: "int \<Rightarrow> string" where
  "netstat_command prt =
     ''netstat -ano | findstr '' @ [dquote] @ '':'' @ show_int prt @ [dquote] @ '' 2>nul''"

definition lsof_command :: "int \<Rightarrow> string" where
  "lsof_command prt = ''lsof -ti:'' @ show_int prt @ '' 2>/dev/null || true''"

text \<open>The body of each \<^verbatim>\<open>try\<close> block after the command has returned its output.\<close>

definition wmic_processes :: "string \<Rightarrow> string \<Rightarrow> ProcessInfo list" where
  "wmic_processes pattern stdout =
     (let lines = filter (\<lambda>l. trim l \<noteq> [] \<and> \<not> includes_str l ''Node,Name,ProcessId'')
                    (split_on nl (trim stdout))
      in concat (map (\<lambda>line.
           let parts = split_on (CHR '','') line
           in if length parts \<ge> 3
              then (case parseInt (parts ! 2) of
                      None \<Rightarrow> []
                    | Some p \<Rightarrow> [\<lparr>pid = p, name = pattern, port = None\<rparr>])
              else []) lines))"

definition pgrep_processes :: "string \<Rightarrow> string \<Rightarrow> ProcessInfo list" where
  "pgrep_processes pattern stdout =
     (let pids = filter (\<lambda>p. trim p \<noteq> []) (split_on nl (trim stdout))
      in concat (map (\<lambda>pidStr.
           case parseInt pidStr of
             None \<Rightarrow> []
           | Some p \<Rightarrow> [\<lparr>pid = p, name = pattern, port = None\<rparr>]) pids))"

text \<open>The test both port paths apply to one line of \<^verbatim>\<open>netstat\<close> output: at least five
  columns, the local address mentions the port, and the last column parses to a process
  identifier other than 0.\<close>

definition netstat_line_pid :: "int \<Rightarrow> string \<Rightarrow> int option" where
  "netstat_line_pid prt line =
     (let parts = split_ws (trim line)
      in if length parts \<ge> 5 \<and> includes_str (parts ! 1) ('':'' @ show_int prt)
         then (case parseInt (parts ! 4) of
                 None \<Rightarrow> None
               | Some p \<Rightarrow> if p \<noteq> 0 then Some p else None)
         else None)"

definition netstat_processes :: "int \<Rightarrow> string \<Rightarrow> ProcessInfo list" where
  "netstat_processes prt stdout =
     (let lines = split_on nl (trim stdout)
      in concat (map (\<lambda>line.
           case netstat_line_pid prt line of
             None \<Rightarrow> []
           | Some p \<Rightarrow> [\<lparr>pid = p, name = ''port:'' @ show_int prt, port = Some prt\<rparr>]) lines))"

definition lsof_processes :: "int \<Rightarrow> string \<Rightarrow> ProcessInfo list" where
  "lsof_processes prt stdout =
     (let pids = filter (\<lambda>p. trim p \<noteq> []) (split_on nl (trim stdout))
      in concat (map (\<lambda>pidStr.
           case parseInt pidStr of
             None \<Rightarrow> []
           | Some p \<Rightarrow> [\<lparr>pid = p, name = ''port:'' @ show_int prt, port = Some prt\<rparr>]) pids))"

text \<open>
  All four discovery loops have one shape: for each watched value, run a command inside
  a \<^verbatim>\<open>try\<close>; on success push the handles parsed from its output, on an error push
  nothing (the empty \<^verbatim>\<open>catch\<close>) and go on with the next value.
\<close>

fun probe_loop ::
  "'w os \<Rightarrow> ('a \<Rightarrow> string) \<Rightarrow> ('a \<Rightarrow> string \<Rightarrow> ProcessInfo list) \<Rightarrow> 'a list
     \<Rightarrow> ProcessInfo list \<Rightarrow> 'w run \<Rightarrow> ProcessInfo list \<times> 'w run" where
  "probe_loop sys cmd parse [] processes s = (processes, s)"
| "probe_loop sys cmd parse (x # xs) processes s =
     (case execAsync sys (cmd x) s of
        (Inl _, s') \<Rightarrow> probe_loop sys cmd parse xs processes s'
      | (Inr stdout, s') \<Rightarrow> probe_loop sys cmd parse xs (processes @ parse x stdout) s')"

definition findMcpProcesses ::
  "'w os \<Rightarrow> registry \<Rightarrow> 'w run \<Rightarrow> (js_error + ProcessInfo list) \<times> 'w run" where
  "findMcpProcesses sys reg s =
     (case (if platform sys = ''win32''
            then probe_loop sys wmic_command wmic_processes (MCP_PROCESS_PATTERNS reg) [] s
            else probe_loop sys pgrep_command pgrep_processes (MCP_PROCESS_PATTERNS reg) [] s)
      of (processes, s') \<Rightarrow> (Inr processes, s'))"

definition findProcessesOnMcpPorts ::
  "'w os \<Rightarrow> registry \<Rightarrow> 'w run \<Rightarrow> (js_error + ProcessInfo list) \<times> 'w run" where
  "findProcessesOnMcpPorts sys reg s =
     (case (if platform sys = ''win32''
            then probe_loop sys netstat_command netstat_processes (MCP_PORTS reg) [] s
            else probe_loop sys lsof_command lsof_processes (MCP_PORTS reg) [] s)
      of (processes, s') \<Rightarrow> (Inr processes, s'))"

subsection \<open>cleanupOrphanedMcpProcesses\<close>

text \<open>
  The \<^verbatim>\<open>Map\<close> keyed by process identifier is an association list in insertion order,
  which is the order \<^verbatim>\<open>values()\<close> iterates in; \<^verbatim>\<open>set\<close> on a new key appends.
\<close>

fun dedup_loop :: "ProcessInfo list \<Rightarrow> (int \<times> ProcessInfo) list \<Rightarrow> (int \<times> ProcessInfo) list" where
  "dedup_loop [] allProcesses = allProcesses"
| "dedup_loop (proc # rest) allProcesses =
     dedup_loop rest
       (if map_of allProcesses (pid proc) = None
        then AList.update (pid proc) proc allProcesses
        else allProcesses)"

fun kill_loop :: "'w os \<Rightarrow> ProcessInfo list \<Rightarrow> nat \<Rightarrow> 'w run \<Rightarrow> (js_error + nat) \<times> 'w run" where
  "kill_loop sys [] killed s = (Inr killed, s)"
| "kill_loop sys (proc # rest) killed s =
     (case killProcess sys (pid proc) s of
        (Inl e, s') \<Rightarrow> (Inl e, s')
      | (Inr result, s') \<Rightarrow>
          kill_loop sys rest (if success result then killed + 1 else killed) s')"

definition cleanupOrphanedMcpProcesses ::
  "'w os \<Rightarrow> registry \<Rightarrow> 'w run \<Rightarrow> (js_error + nat) \<times> 'w run" where
  "cleanupOrphanedMcpProcesses sys reg s =
     (case findMcpProcesses sys reg s of
        (Inl e, s1) \<Rightarrow> (Inl e, s1)
      | (Inr processesByName, s1) \<Rightarrow>
          (case findProcessesOnMcpPorts sys reg s1 of
             (Inl e, s2) \<Rightarrow> (Inl e, s2)
           | (Inr processesByPort, s2) \<Rightarrow>
               (let allProcesses = dedup_loop (processesByName @ processesByPort) []
                in if length allProcesses = 0 then (Inr 0, s2)
                   else kill_loop sys (map snd allProcesses) 0 s2)))"

subsection \<open>freePort\<close>

text \<open>
  The Windows loop returns at the first line that passes the test, after the call of
  \<^verbatim>\<open>killProcess\<close>, whose result is not looked at. \<open>None\<close> means that the loop ran
  to its end without returning.
\<close>

fun freePort_lines ::
  "'w os \<Rightarrow> int \<Rightarrow> string list \<Rightarrow> 'w run \<Rightarrow> (js_error + bool option) \<times> 'w run" where
  "freePort_lines sys prt [] s = (Inr None, s)"
| "freePort_lines sys prt (line # lines) s =
     (case netstat_line_pid prt line of
        None \<Rightarrow> freePort_lines sys prt lines s
      | Some p \<Rightarrow>
          (case killProcess sys p s of
             (Inl e, s') \<Rightarrow> (Inl e, s')
           | (Inr _, s') \<Rightarrow> (Inr (Some True), s')))"

text \<open>The body of the \<^verbatim>\<open>try\<close> block of \<^verbatim>\<open>freePort\<close>. Element 0 of an empty array
  would be \<^verbatim>\<open>undefined\<close>, which the test of \<^verbatim>\<open>pidStr\<close> rejects like the empty string.\<close>

definition freePort_try :: "'w os \<Rightarrow> int \<Rightarrow> 'w run \<Rightarrow> (js_error + bool) \<times> 'w run" where
  "freePort_try sys prt s =
     (if platform sys = ''win32''
      then (case execAsync sys (netstat_command prt) s of
              (Inl e, s1) \<Rightarrow> (Inl e, s1)
            | (Inr stdout, s1) \<Rightarrow>
                (case freePort_lines sys prt (split_on nl (trim stdout)) s1 of
                   (Inl e, s2) \<Rightarrow> (Inl e, s2)
                 | (Inr (Some b), s2) \<Rightarrow> (Inr b, s2)
                 | (Inr None, s2) \<Rightarrow> (Inr True, s2)))
      else (case execAsync sys (lsof_command prt) s of
              (Inl e, s1) \<Rightarrow> (Inl e, s1)
            | (Inr stdout, s1) \<Rightarrow>
                (case split_on nl (trim stdout) of
                   [] \<Rightarrow> (Inr True, s1)
                 | pidStr # _ \<Rightarrow>
                     if pidStr \<noteq> []
                     then (case parseInt pidStr of
                             None \<Rightarrow> (Inr True, s1)
                           | Some p \<Rightarrow>
                               (case killProcess sys p s1 of
                                  (Inl e, s2) \<Rightarrow> (Inl e, s2)
                                | (Inr _, s2) \<Rightarrow> (Inr True, s2)))
                     else (Inr True, s1))))"

text \<open>
  \<^verbatim>\<open>freePort\<close> is a function of the module, so it runs against the module state like
  the sweep does; its body never reads the two arrays.
\<close>

definition freePort :: "'w os \<Rightarrow> registry \<Rightarrow> int \<Rightarrow> 'w run \<Rightarrow> (js_error + bool) \<times> 'w run" where
  "freePort sys reg prt s =
     (case freePort_try sys prt s of
        (Inl _, s') \<Rightarrow> (Inr False, s')
      | (Inr b, s') \<Rightarrow> (Inr b, s'))"

subsection \<open>Registration\<close>

definition registerMcpPort :: "int \<Rightarrow> registry \<Rightarrow> registry" where
  "registerMcpPort prt reg =
     (if prt \<notin> set (MCP_PORTS reg) then reg\<lparr>MCP_PORTS := MCP_PORTS reg @ [prt]\<rparr> else reg)"

definition registerMcpPattern :: "string \<Rightarrow> registry \<Rightarrow> registry" where
  "registerMcpPattern pattern reg =
     (if pattern \<notin> set (MCP_PROCESS_PATTERNS reg)
      then reg\<lparr>MCP_PROCESS_PATTERNS := MCP_PROCESS_PATTERNS reg @ [pattern]\<rparr>
      else reg)"

subsection \<open>Observing a run\<close>

text \<open>The events a run added to the trace, and the signals among them.\<close>

definition new_events :: "'w run \<Rightarrow> 'w run \<Rightarrow> event list" where
  "new_events s s' = drop (length (snd s)) (snd s')"

fun signalled :: "event list \<Rightarrow> (int \<times> signal) list" where
  "signalled [] = []"
| "signalled (Kill p sg # es) = (p, sg) # signalled es"
| "signalled (Exec c # es) = signalled es"
| "signalled (Wait n # es) = signalled es"

text \<open>
  The worlds in which \<^verbatim>\<open>killProcess\<close> makes its later calls, starting from world \<open>w\<close>:
  the first liveness probe comes after the graceful signal and the 500 ms wait, the
  forced signal after that probe, the second probe after the forced signal and the
  200 ms wait.
\<close>

definition world_first_probe :: "'w os \<Rightarrow> int \<Rightarrow> 'w \<Rightarrow> 'w" where
  "world_first_probe sys p w = os_wait sys 500 (snd (os_kill sys p SIGTERM w))"

definition world_forced :: "'w os \<Rightarrow> int \<Rightarrow> 'w \<Rightarrow> 'w" where
  "world_forced sys p w = snd (os_kill sys p SIG0 (world_first_probe sys p w))"

definition world_second_probe :: "'w os \<Rightarrow> int \<Rightarrow> 'w \<Rightarrow> 'w" where
  "world_second_probe sys p w = os_wait sys 200 (snd (os_kill sys p SIGKILL (world_forced sys p w)))"

text \<open>
  The sweep in the words of the specification: terminate every handle of the
  deduplicated set one after the other, and count the outcomes that say the process is
  gone (\<open>Killed\<close>, which the specification calls terminated, and \<open>Already_dead\<close>).
\<close>

fun terminate_each :: "'w os \<Rightarrow> int list \<Rightarrow> 'w run \<Rightarrow> (js_error + KillResult) list \<times> 'w run" where
  "terminate_each sys [] s = ([], s)"
| "terminate_each sys (p # ps) s =
     (case killProcess sys p s of
        (r, s1) \<Rightarrow> (case terminate_each sys ps s1 of (rs, s2) \<Rightarrow> (r # rs, s2)))"

definition process_gone :: "js_error + KillResult \<Rightarrow> bool" where
  "process_gone r =
     (case r of Inl _ \<Rightarrow> False
      | Inr k \<Rightarrow> reason k = Some Killed \<or> reason k = Some Already_dead)"

definition deduplicated :: "'w os \<Rightarrow> registry \<Rightarrow> 'w run \<Rightarrow> (int \<times> ProcessInfo) list" where
  "deduplicated sys reg s =
     (case findMcpProcesses sys reg s of
        (byName, s1) \<Rightarrow>
          (case findProcessesOnMcpPorts sys reg s1 of
             (byPort, s2) \<Rightarrow>
               dedup_loop ((case byName of Inr a \<Rightarrow> a | Inl _ \<Rightarrow> [])
                           @ (case byPort of Inr b \<Rightarrow> b | Inl _ \<Rightarrow> [])) []))"

text \<open>The raw handles of one sweep: the pattern matches followed by the port matches.\<close>

definition discovered :: "'w os \<Rightarrow> registry \<Rightarrow> 'w run \<Rightarrow> ProcessInfo list" where
  "discovered sys reg s =
     (case findMcpProcesses sys reg s of
        (byName, s1) \<Rightarrow>
          (case findProcessesOnMcpPorts sys reg s1 of
             (byPort, s2) \<Rightarrow>
               (case byName of Inr a \<Rightarrow> a | Inl _ \<Rightarrow> [])
               @ (case byPort of Inr b \<Rightarrow> b | Inl _ \<Rightarrow> [])))"

definition after_discovery :: "'w os \<Rightarrow> registry \<Rightarrow> 'w run \<Rightarrow> 'w run" where
  "after_discovery sys reg s =
     snd (findProcessesOnMcpPorts sys reg (snd (findMcpProcesses sys reg s)))"

text \<open>The port lookup of \<^verbatim>\<open>freePort\<close> and the process identifiers its output reports, read
  the way the port scanner reads the same output.\<close>

definition port_lookup_command :: "'w os \<Rightarrow> int \<Rightarrow> string" where
  "port_lookup_command sys prt =
     (if platform sys = ''win32'' then netstat_command prt else lsof_command prt)"

definition reported_pids :: "'w os \<Rightarrow> int \<Rightarrow> string \<Rightarrow> int list" where
  "reported_pids sys prt stdout =
     map pid (if platform sys = ''win32'' then netstat_processes prt stdout
              else lsof_processes prt stdout)"

text \<open>The same system, except that a command that would be rejected returns no output.\<close>

definition quiet :: "'w os \<Rightarrow> 'w os" where
  "quiet sys =
     sys\<lparr>os_exec := \<lambda>cmd w. (case os_exec sys cmd w of
                                 (Inl _, w') \<Rightarrow> (Inr [], w')
                               | (Inr out, w') \<Rightarrow> (Inr out, w'))\<rparr>"

subsection \<open>A small operating system to run the module on\<close>

text \<open>
  A process table and a table of command outputs. A \<open>Cooperative\<close> process exits on
  the graceful signal, a \<open>Stubborn\<close> one only on the forced signal, an \<open>Unkillable\<close>
  one on neither, and a \<open>Foreign\<close> one belongs to another user. A command with no
  entry in the table is rejected.
\<close>

datatype temper = Cooperative | Stubborn | Unkillable | Foreign

record toy_world =
  procs :: "(int \<times> temper) list"
  outputs :: "(string \<times> string) list"

definition toy_kill :: "int \<Rightarrow> signal \<Rightarrow> toy_world \<Rightarrow> (js_error + unit) \<times> toy_world" where
  "toy_kill p sg w =
     (case map_of (procs w) p of
        None \<Rightarrow> (Inl (JsError (Some ''ESRCH'')), w)
      | Some t \<Rightarrow>
          if t = Foreign then (Inl (JsError (Some ''EPERM'')), w)
          else if (sg = SIGTERM \<and> t = Cooperative) \<or> (sg = SIGKILL \<and> t \<noteq> Unkillable)
            then (Inr (), w\<lparr>procs := filter (\<lambda>x. fst x \<noteq> p) (procs w)\<rparr>)
          else (Inr (), w))"

definition toy_exec :: "string \<Rightarrow> toy_world \<Rightarrow> (js_error + string) \<times> toy_world" where
  "toy_exec cmd w =
     (case map_of (outputs w) cmd of
        None \<Rightarrow> (Inl (JsError None), w)
      | Some out \<Rightarrow> (Inr out, w))"

definition toy :: "string \<Rightarrow> toy_world os" where
  "toy plat = \<lparr>platform = plat, os_exec = toy_exec, os_kill = toy_kill, os_wait = (\<lambda>ms w. w)\<rparr>"

text \<open>
  The world of the examples: four processes, one of each temper; \<^verbatim>\<open>pgrep\<close> finds 101, 202
  and the vanished 505 under the pattern mcp-server and nothing under mcp-remote, and is
  rejected for robloxstudio-mcp; \<^verbatim>\<open>lsof\<close> finds 202 and then 101 on port 3002, nothing
  on port 4000, 303 on port 5000 and 404 on port 6000, and is rejected for any other port.
\<close>

definition demo_world :: toy_world where
  "demo_world =
     \<lparr>procs = [(101, Cooperative), (202, Stubborn), (303, Unkillable), (404, Foreign)],
      outputs = [(pgrep_command ''mcp-server'', ''101'' @ [nl] @ ''202'' @ [nl] @ ''505'' @ [nl]),
                 (pgrep_command ''mcp-remote'', []),
                 (lsof_command 3002, ''202'' @ [nl] @ ''101'' @ [nl]),
                 (lsof_command 4000, []),
                 (lsof_command 5000, ''303'' @ [nl]),
                 (lsof_command 6000, ''404'' @ [nl])]\<rparr>"

text \<open>
  A win32 world: \<^verbatim>\<open>netstat\<close> piped through \<^verbatim>\<open>findstr\<close> prints three lines for port 3002. The
  first only has the port in its remote address; the next two are listeners, 202 and then
  101.
\<close>

definition demo_netstat_3002 :: string where
  "demo_netstat_3002 =
     ''  TCP    10.0.0.5:49152    10.0.0.9:3002    ESTABLISHED    77'' @ [CHR 0x0D, nl]
     @ ''  TCP    0.0.0.0:3002    0.0.0.0:0    LISTENING    202'' @ [CHR 0x0D, nl]
     @ ''  TCP    127.0.0.1:3002    0.0.0.0:0    LISTENING    101'' @ [CHR 0x0D, nl]"

definition demo_world_win32 :: toy_world where
  "demo_world_win32 =
     \<lparr>procs = [(101, Cooperative), (202, Stubborn)],
      outputs = [(netstat_command 3002, demo_netstat_3002)]\<rparr>"

section \<open>Properties\<close>

lemmas toy_simps = toy_def toy_kill_def toy_exec_def demo_world_def world_first_probe_def
  world_forced_def world_second_probe_def

subsection \<open>The terminator\<close>

lemma killProcess_returns: "\<exists>k. fst (killProcess sys p s) = Inr k"
  by (auto simp: killProcess_def split: prod.splits sum.splits)

text \<open>
  Claim C3. When the graceful signal is answered with "no such process" (an error whose
  code is ESRCH), \<^verbatim>\<open>killProcess\<close> returns success with reason \<^verbatim>\<open>already_dead\<close>.
\<close>

theorem killProcess_already_dead:
  "fst (os_kill sys p SIGTERM (fst s)) = Inl (JsError (Some ''ESRCH''))
   \<Longrightarrow> fst (killProcess sys p s) = Inr \<lparr>success = True, reason = Some Already_dead\<rparr>"
  by (auto simp: killProcess_def process_kill_def split: prod.splits sum.splits)

theorem killProcess_already_dead_witness:
  "fst (os_kill (toy ''linux'') 505 SIGTERM (fst (demo_world, []))) = Inl (JsError (Some ''ESRCH''))
   \<and> fst (killProcess (toy ''linux'') 505 (demo_world, []))
       = Inr \<lparr>success = True, reason = Some Already_dead\<rparr>"
proof -
  have h: "fst (os_kill (toy ''linux'') 505 SIGTERM (fst (demo_world, [])))
             = Inl (JsError (Some ''ESRCH''))"
    by (simp add: toy_simps)
  show ?thesis
    using h killProcess_already_dead [OF h] by (rule conjI)
qed

text \<open>
  Claim C2. For a live process (the graceful signal is delivered without an error) the
  escalation has three ends. If the first liveness probe, made after the 500 ms wait,
  finds the process gone, the result is success with reason \<^verbatim>\<open>killed\<close> (the
  specification's terminated) and no forced signal is among the signals sent. If the
  first probe finds it alive and the process is gone at the forced signal or at the second
  probe, made after the 200 ms wait, the result is success with reason \<^verbatim>\<open>killed\<close>, and
  the forced signal was sent. If both probes find it alive, the result is failure with
  reason \<^verbatim>\<open>error\<close> (the specification's failed).
\<close>

theorem killProcess_escalation:
  assumes live: "\<not> isl (fst (os_kill sys p SIGTERM (fst s)))"
  shows "(isl (fst (os_kill sys p SIG0 (world_first_probe sys p (fst s))))
           \<longrightarrow> fst (killProcess sys p s) = Inr \<lparr>success = True, reason = Some Killed\<rparr>
               \<and> SIGKILL \<notin> snd ` set (signalled (new_events s (snd (killProcess sys p s)))))
       \<and> (\<not> isl (fst (os_kill sys p SIG0 (world_first_probe sys p (fst s))))
           \<and> (isl (fst (os_kill sys p SIGKILL (world_forced sys p (fst s))))
                \<or> isl (fst (os_kill sys p SIG0 (world_second_probe sys p (fst s)))))
           \<longrightarrow> fst (killProcess sys p s) = Inr \<lparr>success = True, reason = Some Killed\<rparr>
               \<and> (p, SIGKILL) \<in> set (signalled (new_events s (snd (killProcess sys p s)))))
       \<and> (\<not> isl (fst (os_kill sys p SIG0 (world_first_probe sys p (fst s))))
           \<and> \<not> isl (fst (os_kill sys p SIGKILL (world_forced sys p (fst s))))
           \<and> \<not> isl (fst (os_kill sys p SIG0 (world_second_probe sys p (fst s))))
           \<longrightarrow> fst (killProcess sys p s) = Inr \<lparr>success = False, reason = Some Error\<rparr>)"
  using live
  by (auto simp: killProcess_def process_kill_def setTimeout_def new_events_def
        world_first_probe_def world_forced_def world_second_probe_def
      split: prod.splits sum.splits)

text \<open>Process 101 exits on the graceful signal, 202 only on the forced one, 303 on neither.\<close>

theorem killProcess_escalation_witness:
  "(\<not> isl (fst (os_kill (toy ''linux'') 101 SIGTERM (fst (demo_world, []))))
    \<and> isl (fst (os_kill (toy ''linux'') 101 SIG0 (world_first_probe (toy ''linux'') 101 (fst (demo_world, [])))))
    \<and> fst (killProcess (toy ''linux'') 101 (demo_world, [])) = Inr \<lparr>success = True, reason = Some Killed\<rparr>
    \<and> SIGKILL \<notin> snd ` set (signalled (new_events (demo_world, []) (snd (killProcess (toy ''linux'') 101 (demo_world, []))))))
   \<and> (\<not> isl (fst (os_kill (toy ''linux'') 202 SIGTERM (fst (demo_world, []))))
    \<and> \<not> isl (fst (os_kill (toy ''linux'') 202 SIG0 (world_first_probe (toy ''linux'') 202 (fst (demo_world, [])))))
    \<and> isl (fst (os_kill (toy ''linux'') 202 SIG0 (world_second_probe (toy ''linux'') 202 (fst (demo_world, [])))))
    \<and> fst (killProcess (toy ''linux'') 202 (demo_world, [])) = Inr \<lparr>success = True, reason = Some Killed\<rparr>
    \<and> (202, SIGKILL) \<in> set (signalled (new_events (demo_world, []) (snd (killProcess (toy ''linux'') 202 (demo_world, []))))))
   \<and> (\<not> isl (fst (os_kill (toy ''linux'') 303 SIGTERM (fst (demo_world, []))))
    \<and> \<not> isl (fst (os_kill (toy ''linux'') 303 SIG0 (world_first_probe (toy ''linux'') 303 (fst (demo_world, [])))))
    \<and> \<not> isl (fst (os_kill (toy ''linux'') 303 SIGKILL (world_forced (toy ''linux'') 303 (fst (demo_world, [])))))
    \<and> \<not> isl (fst (os_kill (toy ''linux'') 303 SIG0 (world_second_probe (toy ''linux'') 303 (fst (demo_world, [])))))
    \<and> fst (killProcess (toy ''linux'') 303 (demo_world, [])) = Inr \<lparr>success = False, reason = Some Error\<rparr>)"
proof -
  have a: "\<not> isl (fst (os_kill (toy ''linux'') 101 SIGTERM (fst (demo_world, []))))"
    and a1: "isl (fst (os_kill (toy ''linux'') 101 SIG0 (world_first_probe (toy ''linux'') 101 (fst (demo_world, [])))))"
    by (simp_all add: toy_simps)
  have b: "\<not> isl (fst (os_kill (toy ''linux'') 202 SIGTERM (fst (demo_world, []))))"
    and b1: "\<not> isl (fst (os_kill (toy ''linux'') 202 SIG0 (world_first_probe (toy ''linux'') 202 (fst (demo_world, [])))))"
    and b2: "isl (fst (os_kill (toy ''linux'') 202 SIG0 (world_second_probe (toy ''linux'') 202 (fst (demo_world, [])))))"
    by (simp_all add: toy_simps)
  have c: "\<not> isl (fst (os_kill (toy ''linux'') 303 SIGTERM (fst (demo_world, []))))"
    and c1: "\<not> isl (fst (os_kill (toy ''linux'') 303 SIG0 (world_first_probe (toy ''linux'') 303 (fst (demo_world, [])))))"
    and c2: "\<not> isl (fst (os_kill (toy ''linux'') 303 SIGKILL (world_forced (toy ''linux'') 303 (fst (demo_world, [])))))"
    and c3: "\<not> isl (fst (os_kill (toy ''linux'') 303 SIG0 (world_second_probe (toy ''linux'') 303 (fst (demo_world, [])))))"
    by (simp_all add: toy_simps)
  note ra = mp [OF conjunct1 [OF killProcess_escalation [OF a]] a1]
  note rb = mp [OF conjunct1 [OF conjunct2 [OF killProcess_escalation [OF b]]]
                   conjI [OF b1 disjI2 [OF b2]]]
  note rc = mp [OF conjunct2 [OF conjunct2 [OF killProcess_escalation [OF c]]]
                   conjI [OF c1 conjI [OF c2 c3]]]
  show ?thesis
    by (intro conjI a a1 b b1 b2 c c1 c2 c3 conjunct1 [OF ra] conjunct2 [OF ra]
          conjunct1 [OF rb] conjunct2 [OF rb] rc)
qed

subsection \<open>The deduplicator\<close>

lemma update_fresh: "map_of m k = None \<Longrightarrow> AList.update k v m = m @ [(k, v)]"
  by (induction m) (auto split: if_splits)

lemma dedup_loop_map_of:
  "map_of (dedup_loop xs m) k =
     (case map_of m k of Some v \<Rightarrow> Some v | None \<Rightarrow> find (\<lambda>x. pid x = k) xs)"
proof (induction xs arbitrary: m)
  case Nil
  then show ?case by (simp split: option.splits)
next
  case (Cons x xs)
  then show ?case by (auto simp: update_conv' split: option.splits)
qed

lemma dedup_loop_distinct:
  "distinct (map fst m) \<Longrightarrow> distinct (map fst (dedup_loop xs m))"
  by (induction xs arbitrary: m) (auto simp: distinct_update)

lemma dedup_loop_keyed:
  "\<forall>e \<in> set m. pid (snd e) = fst e \<Longrightarrow> \<forall>e \<in> set (dedup_loop xs m). pid (snd e) = fst e"
proof (induction xs arbitrary: m)
  case Nil
  then show ?case by simp
next
  case (Cons x xs)
  show ?case
  proof (cases "map_of m (pid x) = None")
    case True
    have "\<forall>e \<in> set (m @ [(pid x, x)]). pid (snd e) = fst e"
      using Cons.prems by simp
    then have "\<forall>e \<in> set (dedup_loop xs (m @ [(pid x, x)])). pid (snd e) = fst e"
      by (rule Cons.IH)
    with True show ?thesis by (simp add: update_fresh)
  next
    case False
    have "\<forall>e \<in> set (dedup_loop xs m). pid (snd e) = fst e"
      using Cons.prems by (rule Cons.IH)
    with False show ?thesis by auto
  qed
qed

lemma dedup_keys: "fst ` set (dedup_loop xs []) = pid ` set xs"
proof -
  have "k \<in> fst ` set (dedup_loop xs []) \<longleftrightarrow> k \<in> pid ` set xs" for k
  proof -
    have "k \<in> fst ` set (dedup_loop xs []) \<longleftrightarrow> map_of (dedup_loop xs []) k \<noteq> None"
      by (simp add: map_of_eq_None_iff)
    also have "\<dots> \<longleftrightarrow> find (\<lambda>x. pid x = k) xs \<noteq> None"
      by (simp add: dedup_loop_map_of)
    also have "\<dots> \<longleftrightarrow> k \<in> pid ` set xs"
      by (auto simp: find_None_iff)
    finally show ?thesis .
  qed
  then show ?thesis by blast
qed

text \<open>
  Claim C4. Merging the pattern matches \<open>a\<close> and the port matches \<open>b\<close> gives a mapping
  with one entry per distinct process identifier: its keys are distinct, they are
  exactly the identifiers that occur in \<open>a\<close> or \<open>b\<close>, so there are as many entries as
  distinct identifiers, and the entry kept under an identifier \<open>k\<close> is the first handle
  with that identifier in \<open>a\<close> followed by \<open>b\<close>, label included.
\<close>

theorem dedup_one_entry_per_pid:
  "distinct (map fst (dedup_loop (a @ b) []))
   \<and> fst ` set (dedup_loop (a @ b) []) = pid ` set (a @ b)
   \<and> length (dedup_loop (a @ b) []) = card (pid ` set (a @ b))
   \<and> map_of (dedup_loop (a @ b) []) k = find (\<lambda>x. pid x = k) (a @ b)"
proof -
  have d: "distinct (map fst (dedup_loop (a @ b) []))"
    by (rule dedup_loop_distinct) simp
  have "length (dedup_loop (a @ b) []) = card (set (map fst (dedup_loop (a @ b) [])))"
    using distinct_card[OF d] by simp
  then have "length (dedup_loop (a @ b) []) = card (pid ` set (a @ b))"
    by (simp add: dedup_keys del: set_append)
  then show ?thesis
    using d by (simp add: dedup_keys dedup_loop_map_of del: set_append)
qed

subsection \<open>The sweep\<close>

lemma killProcess_gone_iff:
  "process_gone (fst (killProcess sys p s))
     = (case fst (killProcess sys p s) of Inl _ \<Rightarrow> False | Inr k \<Rightarrow> success k)"
  by (auto simp: killProcess_def process_gone_def split: prod.splits sum.splits)

lemma signalled_append: "signalled (xs @ ys) = signalled xs @ signalled ys"
  by (induction xs rule: signalled.induct) simp_all

lemma killProcess_trace:
  "\<exists>evs. snd (snd (killProcess sys p s)) = snd s @ evs
         \<and> filter (\<lambda>x. snd x = SIGTERM) (signalled evs) = [(p, SIGTERM)]
         \<and> fst ` set (signalled evs) \<subseteq> {p}"
  by (auto simp: killProcess_def process_kill_def setTimeout_def split: prod.splits sum.splits)

lemma terminate_each_trace:
  "\<exists>evs. snd (snd (terminate_each sys ps s)) = snd s @ evs
         \<and> filter (\<lambda>x. snd x = SIGTERM) (signalled evs) = map (\<lambda>p. (p, SIGTERM)) ps"
proof (induction ps arbitrary: s)
  case Nil
  then show ?case by simp
next
  case (Cons p ps)
  obtain r s1 where k: "killProcess sys p s = (r, s1)" by (cases "killProcess sys p s")
  obtain e1 where e1: "snd s1 = snd s @ e1"
    "filter (\<lambda>x. snd x = SIGTERM) (signalled e1) = [(p, SIGTERM)]"
    using killProcess_trace[of sys p s] k by auto
  obtain e2 where e2: "snd (snd (terminate_each sys ps s1)) = snd s1 @ e2"
    "filter (\<lambda>x. snd x = SIGTERM) (signalled e2) = map (\<lambda>p. (p, SIGTERM)) ps"
    using Cons.IH[of s1] by auto
  have "snd (snd (terminate_each sys (p # ps) s)) = snd s @ (e1 @ e2)"
    using k e1 e2 by (simp add: case_prod_beta)
  moreover have "filter (\<lambda>x. snd x = SIGTERM) (signalled (e1 @ e2)) = map (\<lambda>p. (p, SIGTERM)) (p # ps)"
    using e1 e2 by (simp add: signalled_append)
  ultimately show ?case by blast
qed

lemma kill_loop_terminate_each:
  "kill_loop sys hs killed s =
     (Inr (killed + length (filter process_gone (fst (terminate_each sys (map pid hs) s)))),
      snd (terminate_each sys (map pid hs) s))"
proof (induction hs arbitrary: killed s)
  case Nil
  then show ?case by simp
next
  case (Cons x xs)
  obtain k s1 where k: "killProcess sys (pid x) s = (Inr k, s1)"
    using killProcess_returns[of sys "pid x" s] by (cases "killProcess sys (pid x) s") auto
  have g: "process_gone (Inr k) = success k"
    using killProcess_gone_iff[of sys "pid x" s] k by simp
  show ?case
    using k g Cons.IH[of _ s1] by (simp split: prod.splits)
qed

lemma findMcpProcesses_returns: "\<exists>ps. fst (findMcpProcesses sys reg s) = Inr ps"
  by (simp add: findMcpProcesses_def split: prod.splits)

lemma findProcessesOnMcpPorts_returns: "\<exists>ps. fst (findProcessesOnMcpPorts sys reg s) = Inr ps"
  by (simp add: findProcessesOnMcpPorts_def split: prod.splits)

lemma deduplicated_keyed:
  "map (pid \<circ> snd) (deduplicated sys reg s) = map fst (deduplicated sys reg s)"
proof -
  have "pid (snd e) = fst e" if "e \<in> set (dedup_loop xs [])" for xs e
    using dedup_loop_keyed[of "[]" xs] that by simp
  then show ?thesis
    by (simp add: deduplicated_def case_prod_beta)
qed

lemma cleanup_unfold:
  "cleanupOrphanedMcpProcesses sys reg s =
     (if deduplicated sys reg s = [] then (Inr 0, after_discovery sys reg s)
      else kill_loop sys (map snd (deduplicated sys reg s)) 0 (after_discovery sys reg s))"
proof -
  obtain a s1 where a: "findMcpProcesses sys reg s = (Inr a, s1)"
    using findMcpProcesses_returns[of sys reg s] by (cases "findMcpProcesses sys reg s") auto
  obtain b s2 where b: "findProcessesOnMcpPorts sys reg s1 = (Inr b, s2)"
    using findProcessesOnMcpPorts_returns[of sys reg s1]
    by (cases "findProcessesOnMcpPorts sys reg s1") auto
  show ?thesis
    using a b
    by (simp add: cleanupOrphanedMcpProcesses_def deduplicated_def after_discovery_def Let_def)
qed

lemma deduplicated_discovered:
  "deduplicated sys reg s = dedup_loop (discovered sys reg s) []"
  by (simp add: deduplicated_def discovered_def case_prod_beta)

lemma deduplicated_covers:
  "fst ` set (deduplicated sys reg s) = pid ` set (discovered sys reg s)"
  by (simp add: deduplicated_discovered dedup_keys)

text \<open>
  Claim C5. The sweep equals terminating the handles of the deduplicated set one after the
  other, in the order of the set, and returning the number of outcomes that say the
  process is gone, where \<^verbatim>\<open>already_dead\<close> counts like \<^verbatim>\<open>killed\<close>. The identifiers of the
  set are distinct and are exactly the identifiers of the handles the two discovery
  strategies returned, so the set has one entry for each distinct identifier discovered;
  and the graceful signals sent after discovery are exactly one per identifier of the
  set, in its order. Every discovered process is therefore terminated and counted once,
  also when a pattern and a port both found it.
\<close>

theorem cleanup_counts_each_process_once:
  "cleanupOrphanedMcpProcesses sys reg s =
     (Inr (length (filter process_gone
             (fst (terminate_each sys (map fst (deduplicated sys reg s)) (after_discovery sys reg s))))),
      snd (terminate_each sys (map fst (deduplicated sys reg s)) (after_discovery sys reg s)))
   \<and> distinct (map fst (deduplicated sys reg s))
   \<and> filter (\<lambda>x. snd x = SIGTERM)
        (signalled (new_events (after_discovery sys reg s) (snd (cleanupOrphanedMcpProcesses sys reg s))))
      = map (\<lambda>p. (p, SIGTERM)) (map fst (deduplicated sys reg s))
   \<and> fst ` set (deduplicated sys reg s) = pid ` set (discovered sys reg s)
   \<and> length (deduplicated sys reg s) = card (pid ` set (discovered sys reg s))"
proof -
  let ?d = "deduplicated sys reg s"
  let ?s2 = "after_discovery sys reg s"
  have c: "cleanupOrphanedMcpProcesses sys reg s =
     (Inr (length (filter process_gone (fst (terminate_each sys (map fst ?d) ?s2)))),
      snd (terminate_each sys (map fst ?d) ?s2))"
  proof (cases "?d = []")
    case True
    then show ?thesis by (simp add: cleanup_unfold)
  next
    case False
    then show ?thesis
      by (simp add: cleanup_unfold kill_loop_terminate_each deduplicated_keyed)
  qed
  have d: "distinct (map fst ?d)"
    by (simp add: deduplicated_def dedup_loop_distinct split: prod.splits)
  obtain evs where evs: "snd (snd (terminate_each sys (map fst ?d) ?s2)) = snd ?s2 @ evs"
    "filter (\<lambda>x. snd x = SIGTERM) (signalled evs) = map (\<lambda>p. (p, SIGTERM)) (map fst ?d)"
    using terminate_each_trace[of sys "map fst ?d" ?s2] by auto
  have n: "new_events ?s2 (snd (cleanupOrphanedMcpProcesses sys reg s)) = evs"
    using c evs(1) by (simp add: new_events_def)
  have "length ?d = card (set (map fst ?d))"
    using distinct_card[OF d] by simp
  then have l: "length ?d = card (pid ` set (discovered sys reg s))"
    by (simp add: deduplicated_covers)
  show ?thesis
    using c d evs(2) n l deduplicated_covers[of sys reg s] by simp
qed

text \<open>Evaluation on a small system: concrete worlds are run by unfolding the definitions.\<close>

lemmas run_simps = toy_def toy_kill_def toy_exec_def demo_world_def
  port_lookup_command_def lsof_command_def pgrep_command_def netstat_command_def wmic_command_def
  show_int_def reported_pids_def lsof_processes_def pgrep_processes_def
  trim_def js_ws_def parseInt_def is_digit_def digit_val_def nl_def dquote_def squote_def
  killProcess_def process_kill_def setTimeout_def execAsync_def process_gone_def Let_def
  new_events_def

text \<open>
  In the world of the examples the sweep finds 101, 202 and 505 by pattern and 202 and
  101 again by port; three of them end gone (505 was gone already).
\<close>

lemma demo_sweep:
  "fst (cleanupOrphanedMcpProcesses (toy ''linux'') initial_registry (demo_world, [])) = Inr 3
   \<and> map pid (discovered (toy ''linux'') initial_registry (demo_world, [])) = [101, 202, 505, 202, 101]
   \<and> map fst (deduplicated (toy ''linux'') initial_registry (demo_world, [])) = [101, 202, 505]"
  by (simp add: run_simps cleanupOrphanedMcpProcesses_def deduplicated_def discovered_def
        findMcpProcesses_def findProcessesOnMcpPorts_def initial_registry_def update_fresh)

subsection \<open>Reading the port lookup\<close>

lemma dropWhile_ws_Nil: "dropWhile js_ws s \<noteq> [] \<Longrightarrow> \<exists>c \<in> set s. \<not> js_ws c"
  by (auto simp: dropWhile_eq_Nil_conv)

lemma trim_Nil_iff: "trim s = [] \<longleftrightarrow> (\<forall>c \<in> set s. js_ws c)"
proof
  assume "trim s = []"
  then have a: "\<forall>c \<in> set (dropWhile js_ws s). js_ws c"
    by (simp add: trim_def dropWhile_eq_Nil_conv)
  show "\<forall>c \<in> set s. js_ws c"
  proof (rule ccontr)
    assume "\<not> (\<forall>c \<in> set s. js_ws c)"
    then have n: "dropWhile js_ws s \<noteq> []" by (simp add: dropWhile_eq_Nil_conv)
    then have "\<not> js_ws (hd (dropWhile js_ws s))" by (rule hd_dropWhile)
    moreover have "hd (dropWhile js_ws s) \<in> set (dropWhile js_ws s)" using n by simp
    ultimately show False using a by blast
  qed
next
  assume a: "\<forall>c \<in> set s. js_ws c"
  then have d: "dropWhile js_ws s = []" by (simp add: dropWhile_eq_Nil_conv)
  show "trim s = []" unfolding trim_def d by simp
qed

lemma parseInt_trim:
  assumes "parseInt s = Some p"
  shows "trim s \<noteq> []"
proof -
  have "dropWhile js_ws s \<noteq> []"
  proof
    assume d: "dropWhile js_ws s = []"
    have "parseInt s = None" unfolding parseInt_def Let_def d by simp
    with assms show False by simp
  qed
  then have "\<exists>c \<in> set s. \<not> js_ws c" by (rule dropWhile_ws_Nil)
  then show ?thesis by (simp add: trim_Nil_iff)
qed

lemma split_on_not_Nil: "split_on c s \<noteq> []"
  by (induction s) (auto split: list.splits)

subsection \<open>freePort\<close>

lemma new_events_append: "snd s' = snd s @ evs \<Longrightarrow> new_events s s' = evs"
  by (simp add: new_events_def)

lemma freePort_lines_run:
  "\<exists>evs. snd (snd (freePort_lines sys prt lines s)) = snd s @ evs
         \<and> (fst (freePort_lines sys prt lines s) = Inr None
              \<or> fst (freePort_lines sys prt lines s) = Inr (Some True))
         \<and> fst ` set (signalled evs)
             \<subseteq> set (take 1 (map pid (concat (map (\<lambda>line.
                  case netstat_line_pid prt line of
                    None \<Rightarrow> []
                  | Some p \<Rightarrow> [\<lparr>pid = p, name = n, port = q\<rparr>]) lines))))"
proof (induction lines)
  case Nil
  show ?case by (intro exI[of _ "[]"]) simp
next
  case (Cons line lines)
  show ?case
  proof (cases "netstat_line_pid prt line")
    case None
    with Cons show ?thesis by simp
  next
    case (Some p)
    obtain k s1 where k: "killProcess sys p s = (Inr k, s1)"
      using killProcess_returns[of sys p s] by (cases "killProcess sys p s") auto
    obtain evs where evs: "snd s1 = snd s @ evs" "fst ` set (signalled evs) \<subseteq> {p}"
      using killProcess_trace[of sys p s] k by auto
    have "freePort_lines sys prt (line # lines) s = (Inr (Some True), s1)"
      using Some k by simp
    then show ?thesis
      using Some evs by (intro exI[of _ evs]) auto
  qed
qed

lemma execAsync_eq:
  "execAsync sys cmd s = (fst (os_exec sys cmd (fst s)), (snd (os_exec sys cmd (fst s)), snd s @ [Exec cmd]))"
  by (simp add: execAsync_def case_prod_beta)

lemma freePort_rejected:
  assumes "isl (fst (os_exec sys (port_lookup_command sys prt) (fst s)))"
  shows "freePort sys reg prt s =
           (Inr False, (snd (os_exec sys (port_lookup_command sys prt) (fst s)),
                        snd s @ [Exec (port_lookup_command sys prt)]))"
  using assms
  by (auto simp: freePort_def freePort_try_def port_lookup_command_def execAsync_eq isl_def)

lemma freePort_completed:
  assumes "fst (os_exec sys (port_lookup_command sys prt) (fst s)) = Inr stdout"
  shows "\<exists>evs. fst (freePort sys reg prt s) = Inr True
           \<and> snd (snd (freePort sys reg prt s)) = snd s @ Exec (port_lookup_command sys prt) # evs
           \<and> fst ` set (signalled evs) \<subseteq> set (take 1 (reported_pids sys prt stdout))"
proof (cases "platform sys = ''win32''")
  case True
  let ?s1 = "(snd (os_exec sys (netstat_command prt) (fst s)), snd s @ [Exec (netstat_command prt)])"
  have e: "execAsync sys (netstat_command prt) s = (Inr stdout, ?s1)"
    using assms True by (simp add: execAsync_eq port_lookup_command_def)
  obtain evs where r:
    "snd (snd (freePort_lines sys prt (split_on nl (trim stdout)) ?s1)) = snd ?s1 @ evs"
    "fst (freePort_lines sys prt (split_on nl (trim stdout)) ?s1) = Inr None
       \<or> fst (freePort_lines sys prt (split_on nl (trim stdout)) ?s1) = Inr (Some True)"
    "fst ` set (signalled evs) \<subseteq> set (take 1 (map pid (netstat_processes prt stdout)))"
    using freePort_lines_run[of sys prt "split_on nl (trim stdout)" ?s1 "''port:'' @ show_int prt" "Some prt"]
    unfolding netstat_processes_def Let_def by blast
  obtain b s2 where fl: "freePort_lines sys prt (split_on nl (trim stdout)) ?s1 = (Inr b, s2)"
    and b: "b = None \<or> b = Some True"
    using r(2) by (cases "freePort_lines sys prt (split_on nl (trim stdout)) ?s1") auto
  have s2: "snd s2 = snd s @ Exec (netstat_command prt) # evs"
    using r(1) fl by simp
  have "fst (freePort sys reg prt s) = Inr True"
    using True e fl b by (auto simp: freePort_def freePort_try_def)
  moreover have "snd (snd (freePort sys reg prt s)) = snd s @ Exec (port_lookup_command sys prt) # evs"
    using True e fl b s2 by (auto simp: freePort_def freePort_try_def port_lookup_command_def)
  ultimately show ?thesis
    using r(3) True by (auto simp: reported_pids_def)
next
  case False
  let ?s1 = "(snd (os_exec sys (lsof_command prt) (fst s)), snd s @ [Exec (lsof_command prt)])"
  have e: "execAsync sys (lsof_command prt) s = (Inr stdout, ?s1)"
    using assms False by (simp add: execAsync_eq port_lookup_command_def)
  obtain pidStr rest where sp: "split_on nl (trim stdout) = pidStr # rest"
    using split_on_not_Nil[of nl "trim stdout"] by (cases "split_on nl (trim stdout)") auto
  show ?thesis
  proof (cases "pidStr \<noteq> [] \<and> parseInt pidStr \<noteq> None")
    case True
    then obtain p where p: "parseInt pidStr = Some p" by auto
    obtain k s2 where k: "killProcess sys p ?s1 = (Inr k, s2)"
      using killProcess_returns[of sys p ?s1] by (cases "killProcess sys p ?s1") auto
    obtain evs where evs: "snd s2 = snd ?s1 @ evs" "fst ` set (signalled evs) \<subseteq> {p}"
      using killProcess_trace[of sys p ?s1] k by auto
    have rp: "take 1 (reported_pids sys prt stdout) = [p]"
      using False sp p parseInt_trim[OF p]
      by (simp add: reported_pids_def lsof_processes_def)
    have "fst (freePort sys reg prt s) = Inr True"
      using False e sp True p k by (simp add: freePort_def freePort_try_def)
    moreover have "snd (snd (freePort sys reg prt s)) = snd s @ Exec (port_lookup_command sys prt) # evs"
      using False e sp True p k evs(1)
      by (simp add: freePort_def freePort_try_def port_lookup_command_def)
    ultimately show ?thesis using evs(2) rp by auto
  next
    case n: False
    have "fst (freePort sys reg prt s) = Inr True"
      using False e sp n by (auto simp: freePort_def freePort_try_def split: option.splits)
    moreover have "snd (snd (freePort sys reg prt s)) = snd s @ Exec (port_lookup_command sys prt) # []"
      using False e sp n
      by (auto simp: freePort_def freePort_try_def port_lookup_command_def split: option.splits)
    ultimately show ?thesis by (intro exI[of _ "[]"]) simp
  qed
qed

lemma killProcess_first_signal:
  "\<exists>evs. snd (snd (killProcess sys p s)) = snd s @ Kill p SIGTERM # evs"
  by (auto simp: killProcess_def process_kill_def setTimeout_def split: prod.splits sum.splits)

lemma freePort_lines_first:
  assumes "map pid (concat (map (\<lambda>line.
                  case netstat_line_pid prt line of
                    None \<Rightarrow> []
                  | Some p \<Rightarrow> [\<lparr>pid = p, name = n, port = q\<rparr>]) lines)) = p # rest"
  shows "freePort_lines sys prt lines s = (Inr (Some True), snd (killProcess sys p s))"
  using assms
proof (induction lines arbitrary: rest)
  case Nil
  then show ?case by simp
next
  case (Cons line lines)
  show ?case
  proof (cases "netstat_line_pid prt line")
    case None
    with Cons show ?thesis by simp
  next
    case (Some p')
    with Cons.prems have "p' = p" by simp
    obtain k s1 where k: "killProcess sys p s = (Inr k, s1)"
      using killProcess_returns[of sys p s] by (cases "killProcess sys p s") auto
    show ?thesis using Some \<open>p' = p\<close> k by simp
  qed
qed

lemma freePort_passes_first:
  assumes out: "fst (os_exec sys (port_lookup_command sys prt) (fst s)) = Inr stdout"
    and h: "(platform sys = ''win32'' \<and> reported_pids sys prt stdout \<noteq> [])
            \<or> (platform sys \<noteq> ''win32'' \<and> parseInt (hd (split_on nl (trim stdout))) \<noteq> None)"
  shows "freePort sys reg prt s =
           (Inr True, snd (killProcess sys (hd (reported_pids sys prt stdout))
                             (snd (execAsync sys (port_lookup_command sys prt) s))))"
proof (cases "platform sys = ''win32''")
  case True
  let ?s1 = "(snd (os_exec sys (netstat_command prt) (fst s)), snd s @ [Exec (netstat_command prt)])"
  have e: "execAsync sys (netstat_command prt) s = (Inr stdout, ?s1)"
    using out True by (simp add: execAsync_eq port_lookup_command_def)
  from h True obtain p rest where pr: "map pid (netstat_processes prt stdout) = p # rest"
    by (cases "map pid (netstat_processes prt stdout)") (auto simp: reported_pids_def)
  then have hd: "hd (reported_pids sys prt stdout) = p"
    using True by (simp add: reported_pids_def)
  have "freePort_lines sys prt (split_on nl (trim stdout)) ?s1
          = (Inr (Some True), snd (killProcess sys p ?s1))"
    using pr unfolding netstat_processes_def Let_def by (rule freePort_lines_first)
  then show ?thesis
    using True e hd by (simp add: freePort_def freePort_try_def port_lookup_command_def)
next
  case False
  let ?s1 = "(snd (os_exec sys (lsof_command prt) (fst s)), snd s @ [Exec (lsof_command prt)])"
  have e: "execAsync sys (lsof_command prt) s = (Inr stdout, ?s1)"
    using out False by (simp add: execAsync_eq port_lookup_command_def)
  obtain pidStr rest where sp: "split_on nl (trim stdout) = pidStr # rest"
    using split_on_not_Nil[of nl "trim stdout"] by (cases "split_on nl (trim stdout)") auto
  from h False sp obtain p where p: "parseInt pidStr = Some p" by auto
  then have ne: "pidStr \<noteq> []" using parseInt_trim[OF p] by (auto simp: trim_def)
  have hd: "hd (reported_pids sys prt stdout) = p"
    using False sp p parseInt_trim[OF p] by (simp add: reported_pids_def lsof_processes_def)
  obtain k s2 where k: "killProcess sys p ?s1 = (Inr k, s2)"
    using killProcess_returns[of sys p ?s1] by (cases "killProcess sys p ?s1") auto
  show ?thesis
    using False e sp p ne k hd by (simp add: freePort_def freePort_try_def port_lookup_command_def)
qed

lemmas win_simps = demo_world_win32_def demo_netstat_3002_def netstat_processes_def
  netstat_line_pid_def split_ws_def

text \<open>
  Claim C9. One call of \<^verbatim>\<open>freePort\<close> signals at most one process, the first one the lookup
  reports. When the lookup command is rejected nothing is signalled; when it returns
  output, every signal of the call goes to the first process identifier that output
  reports, read the way the port scanner reads it. And that identifier is indeed passed
  to \<^verbatim>\<open>killProcess\<close>: when the output reports a listener (on win32), or its first line
  parses as an integer (elsewhere), the call returns true in exactly the state in which
  \<^verbatim>\<open>killProcess\<close> on the first reported identifier ends when started right after the
  lookup, and the first signal of the call is the graceful signal to that identifier.
  Identifiers reported after the first are ignored.
\<close>

theorem freePort_first_listener_only:
  "(case fst (os_exec sys (port_lookup_command sys prt) (fst s)) of
      Inl _ \<Rightarrow> signalled (new_events s (snd (freePort sys reg prt s))) = []
    | Inr out \<Rightarrow>
        fst ` set (signalled (new_events s (snd (freePort sys reg prt s))))
          \<subseteq> set (take 1 (reported_pids sys prt out)))
   \<and> (fst (os_exec sys (port_lookup_command sys prt) (fst s)) = Inr stdout
        \<and> ((platform sys = ''win32'' \<and> reported_pids sys prt stdout \<noteq> [])
             \<or> (platform sys \<noteq> ''win32'' \<and> parseInt (hd (split_on nl (trim stdout))) \<noteq> None))
      \<longrightarrow> freePort sys reg prt s =
            (Inr True, snd (killProcess sys (hd (reported_pids sys prt stdout))
                              (snd (execAsync sys (port_lookup_command sys prt) s))))
          \<and> take 1 (signalled (new_events s (snd (freePort sys reg prt s))))
              = [(hd (reported_pids sys prt stdout), SIGTERM)])"
proof (intro conjI impI)
  show "(case fst (os_exec sys (port_lookup_command sys prt) (fst s)) of
      Inl _ \<Rightarrow> signalled (new_events s (snd (freePort sys reg prt s))) = []
    | Inr out \<Rightarrow>
        fst ` set (signalled (new_events s (snd (freePort sys reg prt s))))
          \<subseteq> set (take 1 (reported_pids sys prt out)))"
  proof (cases "fst (os_exec sys (port_lookup_command sys prt) (fst s))")
    case (Inl e)
    then have "isl (fst (os_exec sys (port_lookup_command sys prt) (fst s)))" by simp
    then show ?thesis
      using Inl by (simp add: freePort_rejected new_events_def)
  next
    case (Inr out)
    obtain evs where evs:
      "snd (snd (freePort sys reg prt s)) = snd s @ Exec (port_lookup_command sys prt) # evs"
      "fst ` set (signalled evs) \<subseteq> set (take 1 (reported_pids sys prt out))"
      using freePort_completed[OF Inr, of reg] by blast
    have "new_events s (snd (freePort sys reg prt s)) = Exec (port_lookup_command sys prt) # evs"
      using evs(1) by (rule new_events_append)
    then show ?thesis using Inr evs(2) by simp
  qed
next
  assume a: "fst (os_exec sys (port_lookup_command sys prt) (fst s)) = Inr stdout
        \<and> ((platform sys = ''win32'' \<and> reported_pids sys prt stdout \<noteq> [])
             \<or> (platform sys \<noteq> ''win32'' \<and> parseInt (hd (split_on nl (trim stdout))) \<noteq> None))"
  let ?p = "hd (reported_pids sys prt stdout)"
  let ?s1 = "snd (execAsync sys (port_lookup_command sys prt) s)"
  show r: "freePort sys reg prt s = (Inr True, snd (killProcess sys ?p ?s1))"
    using a by (intro freePort_passes_first) simp_all
  obtain evs where evs: "snd (snd (killProcess sys ?p ?s1)) = snd ?s1 @ Kill ?p SIGTERM # evs"
    using killProcess_first_signal[of sys ?p ?s1] by blast
  have "snd (snd (freePort sys reg prt s))
          = snd s @ Exec (port_lookup_command sys prt) # Kill ?p SIGTERM # evs"
    using r evs by (simp add: execAsync_eq)
  then have "new_events s (snd (freePort sys reg prt s))
          = Exec (port_lookup_command sys prt) # Kill ?p SIGTERM # evs"
    by (rule new_events_append)
  then show "take 1 (signalled (new_events s (snd (freePort sys reg prt s)))) = [(?p, SIGTERM)]"
    by simp
qed

text \<open>
  On linux the lookup reports 202 and then 101 on port 3002; on win32 the first line of
  the output fails the listener test and the next two report 202 and then 101. In both
  worlds 202 is signalled, through the whole escalation, and 101 is not.
\<close>

theorem freePort_first_listener_only_witness:
  "(fst (os_exec (toy ''linux'') (port_lookup_command (toy ''linux'') 3002) (fst (demo_world, [])))
      = Inr (''202'' @ [nl] @ ''101'' @ [nl])
    \<and> platform (toy ''linux'') \<noteq> ''win32''
    \<and> parseInt (hd (split_on nl (trim (''202'' @ [nl] @ ''101'' @ [nl])))) \<noteq> None
    \<and> reported_pids (toy ''linux'') 3002 (''202'' @ [nl] @ ''101'' @ [nl]) = [202, 101]
    \<and> take 1 (signalled (new_events (demo_world, [])
                 (snd (freePort (toy ''linux'') initial_registry 3002 (demo_world, [])))))
        = [(hd (reported_pids (toy ''linux'') 3002 (''202'' @ [nl] @ ''101'' @ [nl])), SIGTERM)]
    \<and> signalled (new_events (demo_world, [])
          (snd (freePort (toy ''linux'') initial_registry 3002 (demo_world, []))))
        = [(202, SIGTERM), (202, SIG0), (202, SIGKILL), (202, SIG0)])
   \<and> (fst (os_exec (toy ''win32'') (port_lookup_command (toy ''win32'') 3002) (fst (demo_world_win32, [])))
      = Inr (demo_netstat_3002)
    \<and> platform (toy ''win32'') = ''win32''
    \<and> reported_pids (toy ''win32'') 3002 (demo_netstat_3002) = [202, 101]
    \<and> take 1 (signalled (new_events (demo_world_win32, [])
                 (snd (freePort (toy ''win32'') initial_registry 3002 (demo_world_win32, [])))))
        = [(hd (reported_pids (toy ''win32'') 3002 (demo_netstat_3002)), SIGTERM)]
    \<and> signalled (new_events (demo_world_win32, [])
          (snd (freePort (toy ''win32'') initial_registry 3002 (demo_world_win32, []))))
        = [(202, SIGTERM), (202, SIG0), (202, SIGKILL), (202, SIG0)])"
proof -
  have l1: "fst (os_exec (toy ''linux'') (port_lookup_command (toy ''linux'') 3002) (fst (demo_world, [])))
      = Inr (''202'' @ [nl] @ ''101'' @ [nl])"
    by (simp add: run_simps)
  have l2: "platform (toy ''linux'') \<noteq> ''win32''"
    by (simp add: toy_def)
  have l3: "parseInt (hd (split_on nl (trim (''202'' @ [nl] @ ''101'' @ [nl])))) \<noteq> None"
    by (simp add: run_simps)
  have l4: "reported_pids (toy ''linux'') 3002 (''202'' @ [nl] @ ''101'' @ [nl]) = [202, 101]"
    by (simp add: run_simps)
  have l5: "signalled (new_events (demo_world, [])
          (snd (freePort (toy ''linux'') initial_registry 3002 (demo_world, []))))
        = [(202, SIGTERM), (202, SIG0), (202, SIGKILL), (202, SIG0)]"
    by (simp add: run_simps freePort_def freePort_try_def)
  have w1: "fst (os_exec (toy ''win32'') (port_lookup_command (toy ''win32'') 3002) (fst (demo_world_win32, [])))
      = Inr (demo_netstat_3002)"
    by (simp add: run_simps win_simps)
  have w2: "platform (toy ''win32'') = ''win32''"
    by (simp add: toy_def)
  have w4: "reported_pids (toy ''win32'') 3002 (demo_netstat_3002) = [202, 101]"
    by (simp add: run_simps win_simps)
  have w3: "reported_pids (toy ''win32'') 3002 (demo_netstat_3002) \<noteq> []"
    by (simp add: w4)
  have w5: "signalled (new_events (demo_world_win32, [])
          (snd (freePort (toy ''win32'') initial_registry 3002 (demo_world_win32, []))))
        = [(202, SIGTERM), (202, SIG0), (202, SIGKILL), (202, SIG0)]"
    by (simp add: run_simps win_simps freePort_def freePort_try_def)
  note tl = freePort_first_listener_only [where sys = "toy ''linux''" and prt = 3002
      and s = "(demo_world, [])" and reg = initial_registry
      and stdout = "''202'' @ [nl] @ ''101'' @ [nl]"]
  note tw = freePort_first_listener_only [where sys = "toy ''win32''" and prt = 3002
      and s = "(demo_world_win32, [])" and reg = initial_registry
      and stdout = "demo_netstat_3002"]
  note rl = mp [OF conjunct2 [OF tl] conjI [OF l1 disjI2 [OF conjI [OF l2 l3]]]]
  note rw = mp [OF conjunct2 [OF tw] conjI [OF w1 disjI1 [OF conjI [OF w2 w3]]]]
  show ?thesis
    by (intro conjI l1 l2 l3 l4 l5 w1 w2 w4 w5 conjunct2 [OF rl] conjunct2 [OF rw])
qed

text \<open>
  Off win32 only line 0 of the output is read. \<^verbatim>\<open>lsof -t\<close> prints one process identifier
  per line, so line 0 parses; on an output whose line 0 does not parse, the call returns
  true right after the lookup and signals nothing, whatever the later lines hold.
\<close>

lemma freePort_unparsed_first_line:
  assumes "platform sys \<noteq> ''win32''"
    and "fst (os_exec sys (port_lookup_command sys prt) (fst s)) = Inr stdout"
    and "parseInt (hd (split_on nl (trim stdout))) = None"
  shows "freePort sys reg prt s = (Inr True, snd (execAsync sys (port_lookup_command sys prt) s))"
proof -
  obtain pidStr rest where sp: "split_on nl (trim stdout) = pidStr # rest"
    using split_on_not_Nil[of nl "trim stdout"] by (cases "split_on nl (trim stdout)") auto
  show ?thesis
    using assms sp
    by (simp add: freePort_def freePort_try_def port_lookup_command_def execAsync_eq)
qed

text \<open>
  Claim C1, as amended. On a platform other than win32, when the port lookup command
  itself is rejected, \<^verbatim>\<open>freePort\<close> returns false and signals nothing. On every platform,
  when the lookup returns output that reports no listener, \<^verbatim>\<open>freePort\<close> returns true and
  signals nothing; and when the output reports a listener and terminating the first one
  reported ends with the process gone, \<^verbatim>\<open>freePort\<close> returns true.
\<close>

theorem freePort_outcomes:
  "(platform sys \<noteq> ''win32'' \<and> isl (fst (os_exec sys (port_lookup_command sys prt) (fst s)))
      \<longrightarrow> fst (freePort sys reg prt s) = Inr False
          \<and> signalled (new_events s (snd (freePort sys reg prt s))) = [])
   \<and> (fst (os_exec sys (port_lookup_command sys prt) (fst s)) = Inr stdout
        \<and> reported_pids sys prt stdout = []
      \<longrightarrow> fst (freePort sys reg prt s) = Inr True
          \<and> signalled (new_events s (snd (freePort sys reg prt s))) = [])
   \<and> (fst (os_exec sys (port_lookup_command sys prt) (fst s)) = Inr stdout
        \<and> reported_pids sys prt stdout \<noteq> []
        \<and> process_gone (fst (killProcess sys (hd (reported_pids sys prt stdout))
                                (snd (execAsync sys (port_lookup_command sys prt) s))))
      \<longrightarrow> fst (freePort sys reg prt s) = Inr True)"
proof (intro conjI impI)
  assume a: "platform sys \<noteq> ''win32'' \<and> isl (fst (os_exec sys (port_lookup_command sys prt) (fst s)))"
  then show "fst (freePort sys reg prt s) = Inr False"
    by (simp add: freePort_rejected)
  from a show "signalled (new_events s (snd (freePort sys reg prt s))) = []"
    by (simp add: freePort_rejected new_events_def)
next
  assume a: "fst (os_exec sys (port_lookup_command sys prt) (fst s)) = Inr stdout
               \<and> reported_pids sys prt stdout = []"
  then obtain evs where evs: "fst (freePort sys reg prt s) = Inr True"
    "snd (snd (freePort sys reg prt s)) = snd s @ Exec (port_lookup_command sys prt) # evs"
    "fst ` set (signalled evs) \<subseteq> set (take 1 (reported_pids sys prt stdout))"
    using freePort_completed[of sys prt s stdout reg] by blast
  show "fst (freePort sys reg prt s) = Inr True" by (rule evs(1))
  have "signalled evs = []" using evs(3) a by simp
  moreover have "new_events s (snd (freePort sys reg prt s)) = Exec (port_lookup_command sys prt) # evs"
    using evs(2) by (rule new_events_append)
  ultimately show "signalled (new_events s (snd (freePort sys reg prt s))) = []" by simp
next
  assume "fst (os_exec sys (port_lookup_command sys prt) (fst s)) = Inr stdout
          \<and> reported_pids sys prt stdout \<noteq> []
          \<and> process_gone (fst (killProcess sys (hd (reported_pids sys prt stdout))
                                (snd (execAsync sys (port_lookup_command sys prt) s))))"
  then show "fst (freePort sys reg prt s) = Inr True"
    using freePort_completed[of sys prt s stdout reg] by blast
qed

text \<open>
  The lookup for port 7000 is rejected, the one for port 4000 prints nothing, and the
  one for port 3002 reports process 202, which the forced signal removes.
\<close>

theorem freePort_outcomes_witness:
  "(platform (toy ''linux'') \<noteq> ''win32''
     \<and> isl (fst (os_exec (toy ''linux'') (port_lookup_command (toy ''linux'') 7000) (fst (demo_world, []))))
     \<and> fst (freePort (toy ''linux'') initial_registry 7000 (demo_world, [])) = Inr False
     \<and> signalled (new_events (demo_world, []) (snd (freePort (toy ''linux'') initial_registry 7000 (demo_world, [])))) = [])
   \<and> (fst (os_exec (toy ''linux'') (port_lookup_command (toy ''linux'') 4000) (fst (demo_world, []))) = Inr []
     \<and> reported_pids (toy ''linux'') 4000 [] = []
     \<and> fst (freePort (toy ''linux'') initial_registry 4000 (demo_world, [])) = Inr True
     \<and> signalled (new_events (demo_world, []) (snd (freePort (toy ''linux'') initial_registry 4000 (demo_world, [])))) = [])
   \<and> (fst (os_exec (toy ''linux'') (port_lookup_command (toy ''linux'') 3002) (fst (demo_world, [])))
         = Inr (''202'' @ [nl] @ ''101'' @ [nl])
     \<and> reported_pids (toy ''linux'') 3002 (''202'' @ [nl] @ ''101'' @ [nl]) \<noteq> []
     \<and> process_gone (fst (killProcess (toy ''linux'')
          (hd (reported_pids (toy ''linux'') 3002 (''202'' @ [nl] @ ''101'' @ [nl])))
          (snd (execAsync (toy ''linux'') (port_lookup_command (toy ''linux'') 3002) (demo_world, [])))))
     \<and> fst (freePort (toy ''linux'') initial_registry 3002 (demo_world, [])) = Inr True)"
proof -
  have a: "platform (toy ''linux'') \<noteq> ''win32''
     \<and> isl (fst (os_exec (toy ''linux'') (port_lookup_command (toy ''linux'') 7000) (fst (demo_world, []))))"
    by (simp add: run_simps)
  have b: "fst (os_exec (toy ''linux'') (port_lookup_command (toy ''linux'') 4000) (fst (demo_world, []))) = Inr []
     \<and> reported_pids (toy ''linux'') 4000 [] = []"
    by (simp add: run_simps)
  have c: "fst (os_exec (toy ''linux'') (port_lookup_command (toy ''linux'') 3002) (fst (demo_world, [])))
         = Inr (''202'' @ [nl] @ ''101'' @ [nl])
     \<and> reported_pids (toy ''linux'') 3002 (''202'' @ [nl] @ ''101'' @ [nl]) \<noteq> []
     \<and> process_gone (fst (killProcess (toy ''linux'')
          (hd (reported_pids (toy ''linux'') 3002 (''202'' @ [nl] @ ''101'' @ [nl])))
          (snd (execAsync (toy ''linux'') (port_lookup_command (toy ''linux'') 3002) (demo_world, [])))))"
    by (simp add: run_simps)
  note t1 = freePort_outcomes [where sys = "toy ''linux''" and prt = 7000 and s = "(demo_world, [])"
      and reg = initial_registry and stdout = "[]"]
  note t2 = freePort_outcomes [where sys = "toy ''linux''" and prt = 4000 and s = "(demo_world, [])"
      and reg = initial_registry and stdout = "[]"]
  note t3 = freePort_outcomes [where sys = "toy ''linux''" and prt = 3002 and s = "(demo_world, [])"
      and reg = initial_registry and stdout = "''202'' @ [nl] @ ''101'' @ [nl]"]
  note r1 = mp [OF conjunct1 [OF t1] a]
  note r2 = mp [OF conjunct1 [OF conjunct2 [OF t2]] b]
  note r3 = mp [OF conjunct2 [OF conjunct2 [OF t3]] c]
  show ?thesis
    by (intro conjI conjunct1 [OF a] conjunct2 [OF a] conjunct1 [OF r1] conjunct2 [OF r1]
          conjunct1 [OF b] conjunct2 [OF b] conjunct1 [OF r2] conjunct2 [OF r2]
          conjunct1 [OF c] conjunct1 [OF conjunct2 [OF c]] conjunct2 [OF conjunct2 [OF c]] r3)
qed

text \<open>
  Claim C1 as stated fails: in a world with no process at all, where the lookup command
  is rejected, \<^verbatim>\<open>freePort\<close> returns false although no listener was found and no
  termination was attempted, let alone failed.
\<close>

theorem freePort_false_without_listener:
  "fst (freePort (toy ''linux'') initial_registry 3002 (\<lparr>procs = [], outputs = []\<rparr>, [])) = Inr False
   \<and> signalled (snd (snd (freePort (toy ''linux'') initial_registry 3002 (\<lparr>procs = [], outputs = []\<rparr>, [])))) = []"
  by (simp add: freePort_def freePort_try_def execAsync_def toy_def toy_exec_def)

text \<open>
  The result of \<^verbatim>\<open>killProcess\<close> is not looked at: process 404 belongs to another user, its
  termination ends with \<^verbatim>\<open>permission_denied\<close>, and \<^verbatim>\<open>freePort\<close> on its port returns true.
\<close>

lemma demo_freePort_permission_denied:
  "fst (killProcess (toy ''linux'') 404 (demo_world, [])) = Inr \<lparr>success = False, reason = Some Permission_denied\<rparr>
   \<and> fst (freePort (toy ''linux'') initial_registry 6000 (demo_world, [])) = Inr True"
  by (simp add: run_simps freePort_def freePort_try_def)

text \<open>
  Claim C6, at the input where the code departs from it. On win32 the lookup is
  \<^verbatim>\<open>netstat -ano | findstr ":3002"\<close>; with nothing bound to the port no line matches and
  the command is rejected, the case the port scanner's own \<^verbatim>\<open>catch\<close> calls "No process on
  this port". In a world with no process at all the scanner accordingly reports nothing
  for port 3002, and \<^verbatim>\<open>freePort\<close> returns false where the claim says true.
\<close>

theorem freePort_win32_free_port:
  "fst (freePort (toy ''win32'') initial_registry 3002 (\<lparr>procs = [], outputs = []\<rparr>, [])) = Inr False
   \<and> fst (findProcessesOnMcpPorts (toy ''win32'') initial_registry (\<lparr>procs = [], outputs = []\<rparr>, [])) = Inr []"
  by (simp add: freePort_def freePort_try_def execAsync_def toy_def toy_exec_def
        findProcessesOnMcpPorts_def initial_registry_def)

text \<open>
  Claim C10. The result, the world and the trace of \<^verbatim>\<open>freePort\<close> do not depend on the
  registered patterns and ports: two runs under the same system and state agree for any
  two registries, in particular before and after a registration.
\<close>

theorem freePort_ignores_registry:
  "freePort sys reg prt s = freePort sys reg' prt s
   \<and> freePort sys (registerMcpPort q reg) prt s = freePort sys reg prt s
   \<and> freePort sys (registerMcpPattern t reg) prt s = freePort sys reg prt s"
  by (simp add: freePort_def)

subsection \<open>Registration\<close>

lemma count_list_present: "x \<in> set xs \<Longrightarrow> max 1 (count_list xs x) = count_list xs x"
  using count_list_0_iff[of xs x] by (simp add: max_def)

text \<open>
  Claim C7. Registering a port or a pattern twice gives the same module state as
  registering it once; the value then occurs as often as before, or once if it was new;
  and the next sweep behaves the same after the second registration as after the first.
\<close>

theorem registration_idempotent:
  "registerMcpPort v (registerMcpPort v reg) = registerMcpPort v reg
   \<and> registerMcpPattern t (registerMcpPattern t reg) = registerMcpPattern t reg
   \<and> count_list (MCP_PORTS (registerMcpPort v (registerMcpPort v reg))) v
       = max 1 (count_list (MCP_PORTS reg) v)
   \<and> count_list (MCP_PROCESS_PATTERNS (registerMcpPattern t (registerMcpPattern t reg))) t
       = max 1 (count_list (MCP_PROCESS_PATTERNS reg) t)
   \<and> cleanupOrphanedMcpProcesses sys (registerMcpPort v (registerMcpPort v reg)) s
       = cleanupOrphanedMcpProcesses sys (registerMcpPort v reg) s
   \<and> cleanupOrphanedMcpProcesses sys (registerMcpPattern t (registerMcpPattern t reg)) s
       = cleanupOrphanedMcpProcesses sys (registerMcpPattern t reg) s"
proof -
  have p: "registerMcpPort v (registerMcpPort v reg) = registerMcpPort v reg"
    by (simp add: registerMcpPort_def)
  have q: "registerMcpPattern t (registerMcpPattern t reg) = registerMcpPattern t reg"
    by (simp add: registerMcpPattern_def)
  have "count_list (MCP_PORTS (registerMcpPort v reg)) v = max 1 (count_list (MCP_PORTS reg) v)"
    using count_list_present[of v "MCP_PORTS reg"] by (auto simp: registerMcpPort_def count_list_0_iff)
  moreover have "count_list (MCP_PROCESS_PATTERNS (registerMcpPattern t reg)) t
                   = max 1 (count_list (MCP_PROCESS_PATTERNS reg) t)"
    using count_list_present[of t "MCP_PROCESS_PATTERNS reg"] by (auto simp: registerMcpPattern_def count_list_0_iff)
  ultimately show ?thesis by (simp add: p q)
qed

subsection \<open>Failures stay inside\<close>

lemma parse_empty:
  "wmic_processes x [] = []" "pgrep_processes x [] = []"
  "netstat_processes y [] = []" "lsof_processes y [] = []"
  by (simp_all add: wmic_processes_def pgrep_processes_def netstat_processes_def
        lsof_processes_def netstat_line_pid_def trim_def split_ws_def)

lemma quiet_fields:
  "platform (quiet sys) = platform sys" "os_kill (quiet sys) = os_kill sys"
  "os_wait (quiet sys) = os_wait sys"
  by (simp_all add: quiet_def)

lemma process_kill_quiet: "process_kill (quiet sys) = process_kill sys"
  by (simp add: fun_eq_iff process_kill_def quiet_fields)

lemma setTimeout_quiet: "setTimeout (quiet sys) = setTimeout sys"
  by (simp add: fun_eq_iff setTimeout_def quiet_fields)

lemma killProcess_quiet: "killProcess (quiet sys) p s = killProcess sys p s"
  unfolding killProcess_def process_kill_quiet setTimeout_quiet by (rule refl)

lemma execAsync_quiet:
  "execAsync (quiet sys) cmd s =
     (case execAsync sys cmd s of (Inl _, s') \<Rightarrow> (Inr [], s') | (Inr out, s') \<Rightarrow> (Inr out, s'))"
  by (simp add: execAsync_def quiet_def split: prod.splits sum.splits)

lemma probe_loop_quiet:
  assumes "\<And>x. parse x [] = []"
  shows "probe_loop (quiet sys) cmd parse xs acc s = probe_loop sys cmd parse xs acc s"
proof (induction xs arbitrary: acc s)
  case Nil
  show ?case by simp
next
  case (Cons x xs)
  show ?case
    by (cases "execAsync sys (cmd x) s")
       (auto simp: execAsync_quiet assms Cons.IH split: sum.splits)
qed

lemma probe_loop_trace:
  "snd (snd (probe_loop sys cmd parse xs acc s)) = snd s @ map (\<lambda>x. Exec (cmd x)) xs"
proof (induction xs arbitrary: acc s)
  case Nil
  show ?case by simp
next
  case (Cons x xs)
  show ?case
    by (cases "execAsync sys (cmd x) s")
       (auto simp: execAsync_def Cons.IH split: sum.splits prod.splits)
qed

lemma kill_loop_quiet: "kill_loop (quiet sys) hs k s = kill_loop sys hs k s"
  by (induction hs arbitrary: k s) (simp_all add: killProcess_quiet split: prod.splits sum.splits)

lemma kill_loop_returns: "\<not> isl (fst (kill_loop sys hs k s))"
proof (induction hs arbitrary: k s)
  case Nil
  show ?case by simp
next
  case (Cons h hs)
  obtain r s1 where r: "killProcess sys (pid h) s = (Inr r, s1)"
    using killProcess_returns[of sys "pid h" s] by (cases "killProcess sys (pid h) s") auto
  show ?case using r Cons.IH by simp
qed

lemma findMcpProcesses_quiet: "findMcpProcesses (quiet sys) = findMcpProcesses sys"
  by (simp add: fun_eq_iff findMcpProcesses_def quiet_fields probe_loop_quiet parse_empty)

lemma findProcessesOnMcpPorts_quiet: "findProcessesOnMcpPorts (quiet sys) = findProcessesOnMcpPorts sys"
  by (simp add: fun_eq_iff findProcessesOnMcpPorts_def quiet_fields probe_loop_quiet parse_empty)

lemma kill_loop_quiet_fun: "kill_loop (quiet sys) = kill_loop sys"
  by (simp add: fun_eq_iff kill_loop_quiet)

lemma cleanup_quiet:
  "cleanupOrphanedMcpProcesses (quiet sys) reg s = cleanupOrphanedMcpProcesses sys reg s"
  unfolding cleanupOrphanedMcpProcesses_def findMcpProcesses_quiet
    findProcessesOnMcpPorts_quiet kill_loop_quiet_fun
  by (rule refl)

lemma cleanup_returns: "\<not> isl (fst (cleanupOrphanedMcpProcesses sys reg s))"
  by (simp add: cleanupOrphanedMcpProcesses_def findMcpProcesses_def findProcessesOnMcpPorts_def
        kill_loop_returns Let_def split: prod.splits)

lemma freePort_returns: "\<not> isl (fst (freePort sys reg prt s))"
  by (simp add: freePort_def split: prod.splits sum.splits)

lemma discovery_trace:
  "snd (after_discovery sys reg s) =
     snd s @ map (\<lambda>x. Exec ((if platform sys = ''win32'' then wmic_command else pgrep_command) x))
               (MCP_PROCESS_PATTERNS reg)
           @ map (\<lambda>x. Exec ((if platform sys = ''win32'' then netstat_command else lsof_command) x))
               (MCP_PORTS reg)"
  by (simp add: after_discovery_def findMcpProcesses_def findProcessesOnMcpPorts_def
        probe_loop_trace case_prod_beta)

text \<open>
  Claim C8. Whatever the operating system answers, the sweep and \<^verbatim>\<open>freePort\<close> return a
  value and never an error. A rejected discovery command counts as empty output: the sweep
  on a system is the sweep on the same system with every rejection replaced by empty
  output, and discovery runs the command of every registered pattern and then of every
  registered port, whichever of them are rejected.
\<close>

theorem failures_never_propagate:
  "\<not> isl (fst (cleanupOrphanedMcpProcesses sys reg s))
   \<and> \<not> isl (fst (freePort sys reg prt s))
   \<and> cleanupOrphanedMcpProcesses (quiet sys) reg s = cleanupOrphanedMcpProcesses sys reg s
   \<and> snd (after_discovery sys reg s) =
       snd s @ map (\<lambda>x. Exec ((if platform sys = ''win32'' then wmic_command else pgrep_command) x))
                 (MCP_PROCESS_PATTERNS reg)
             @ map (\<lambda>x. Exec ((if platform sys = ''win32'' then netstat_command else lsof_command) x))
                 (MCP_PORTS reg)"
  using cleanup_returns[of sys reg s] freePort_returns[of sys reg prt s]
    cleanup_quiet[of sys reg s] discovery_trace[of sys reg s]
  by (intro conjI)

end
